theory Spec2Isabelle
  imports Main "HOL-Library.AList"
begin

section \<open>Python strings\<close>

text \<open>
  A Python \<open>str\<close> is modelled as a \<open>string\<close> whose characters stand for the code points
  below 256. \<open>str.strip\<close> removes the white space of that range, \<open>str.lower\<close> maps the
  upper-case letters of that range to their lower-case forms.
\<close>

definition whitespace :: "char list" where
  "whitespace = [CHR 0x09, CHR 0x0A, CHR 0x0B, CHR 0x0C, CHR 0x0D, CHR 0x1C, CHR 0x1D,
     CHR 0x1E, CHR 0x1F, CHR 0x20, CHR 0x85, CHR 0xA0]"

definition is_space :: "char \<Rightarrow> bool" where
  "is_space c = (c \<in> set whitespace)"

definition lstrip :: "string \<Rightarrow> string" where
  "lstrip s = dropWhile is_space s"

definition rstrip :: "string \<Rightarrow> string" where
  "rstrip s = rev (dropWhile is_space (rev s))"

definition strip :: "string \<Rightarrow> string" where
  "strip s = rstrip (lstrip s)"

definition upper_chars :: "char list" where
  "upper_chars = ''ABCDEFGHIJKLMNOPQRSTUVWXYZ'' @
     [CHR 0xC0, CHR 0xC1, CHR 0xC2, CHR 0xC3, CHR 0xC4, CHR 0xC5, CHR 0xC6, CHR 0xC7,
      CHR 0xC8, CHR 0xC9, CHR 0xCA, CHR 0xCB, CHR 0xCC, CHR 0xCD, CHR 0xCE, CHR 0xCF,
      CHR 0xD0, CHR 0xD1, CHR 0xD2, CHR 0xD3, CHR 0xD4, CHR 0xD5, CHR 0xD6,
      CHR 0xD8, CHR 0xD9, CHR 0xDA, CHR 0xDB, CHR 0xDC, CHR 0xDD, CHR 0xDE]"

definition lower_chars :: "char list" where
  "lower_chars = ''abcdefghijklmnopqrstuvwxyz'' @
     [CHR 0xE0, CHR 0xE1, CHR 0xE2, CHR 0xE3, CHR 0xE4, CHR 0xE5, CHR 0xE6, CHR 0xE7,
      CHR 0xE8, CHR 0xE9, CHR 0xEA, CHR 0xEB, CHR 0xEC, CHR 0xED, CHR 0xEE, CHR 0xEF,
      CHR 0xF0, CHR 0xF1, CHR 0xF2, CHR 0xF3, CHR 0xF4, CHR 0xF5, CHR 0xF6,
      CHR 0xF8, CHR 0xF9, CHR 0xFA, CHR 0xFB, CHR 0xFC, CHR 0xFD, CHR 0xFE]"

definition lower_char :: "char \<Rightarrow> char" where
  "lower_char c = (case map_of (zip upper_chars lower_chars) c of Some l \<Rightarrow> l | None \<Rightarrow> c)"

definition lower :: "string \<Rightarrow> string" where
  "lower s = map lower_char s"

definition startswith :: "string \<Rightarrow> string \<Rightarrow> bool" where
  "startswith s p = (take (length p) s = p)"

definition endswith :: "string \<Rightarrow> string \<Rightarrow> bool" where
  "endswith s p = (length p \<le> length s \<and> drop (length s - length p) s = p)"

text \<open>\<open>sub in s\<close>: the substring test.\<close>

fun contains :: "string \<Rightarrow> string \<Rightarrow> bool" where
  "contains [] sub = (sub = [])"
| "contains (c # cs) sub = (startswith (c # cs) sub \<or> contains cs sub)"

text \<open>
  \<open>s.replace(old, new)\<close>: every occurrence of \<open>old\<close>, found from the left and without
  overlap, is replaced.
\<close>

function replace_from :: "string \<Rightarrow> string \<Rightarrow> string \<Rightarrow> string" where
  "replace_from old new [] = []"
| "replace_from old new (c # cs) =
     (if old \<noteq> [] \<and> startswith (c # cs) old
      then new @ replace_from old new (drop (length old) (c # cs))
      else c # replace_from old new cs)"
  by pat_completeness auto
termination
  by (relation "measure (\<lambda>(old, new, s). length s)") auto

definition replace :: "string \<Rightarrow> string \<Rightarrow> string \<Rightarrow> string" where
  "replace old new s =
     (if old = [] then new @ concat (map (\<lambda>c. c # new) s) else replace_from old new s)"

text \<open>\<open>sep.join(xs)\<close>.\<close>

fun join :: "string \<Rightarrow> string list \<Rightarrow> string" where
  "join sep [] = []"
| "join sep [x] = x"
| "join sep (x # y # ys) = x @ sep @ join sep (y # ys)"

text \<open>
  \<open>s.rsplit(sep, 1)[0]\<close> for a non-empty \<open>sep\<close>: the part of \<open>s\<close> before the rightmost
  occurrence of \<open>sep\<close>, and \<open>s\<close> itself when there is none.
\<close>

fun rfind_from :: "string \<Rightarrow> string \<Rightarrow> nat \<Rightarrow> nat option" where
  "rfind_from s sep 0 = (if startswith s sep then Some 0 else None)"
| "rfind_from s sep (Suc i) =
     (if startswith (drop (Suc i) s) sep then Some (Suc i) else rfind_from s sep i)"

definition rfind :: "string \<Rightarrow> string \<Rightarrow> nat option" where
  "rfind s sep =
     (if length sep \<le> length s then rfind_from s sep (length s - length sep) else None)"

definition rsplit1_head :: "string \<Rightarrow> string \<Rightarrow> string" where
  "rsplit1_head sep s = (case rfind s sep of None \<Rightarrow> s | Some i \<Rightarrow> take i s)"

text \<open>\<open>os.path.join(a, b)\<close> on a POSIX system.\<close>

definition os_path_join :: "string \<Rightarrow> string \<Rightarrow> string" where
  "os_path_join a b =
     (if startswith b ''/'' then b
      else if a = [] \<or> endswith a ''/'' then a @ b
      else a @ ''/'' @ b)"

section \<open>The parsed tree and its queries\<close>

text \<open>
  What \<open>BeautifulSoup(xml_content, "xml")\<close> returns: a tree of elements and text. The
  soup object itself is an element whose children are the top-level nodes.
\<close>

datatype node = Element string "node list" | Text string

text \<open>All nodes below a node, in document order.\<close>

fun descendants :: "node \<Rightarrow> node list" where
  "descendants (Text s) = []"
| "descendants (Element n cs) = concat (map (\<lambda>c. c # descendants c) cs)"

fun tag_matches :: "string list \<Rightarrow> node \<Rightarrow> bool" where
  "tag_matches names (Element n cs) = (n \<in> set names)"
| "tag_matches names (Text s) = False"

text \<open>\<open>tag.find_all(names)\<close> and \<open>tag.find(name)\<close>.\<close>

definition find_all :: "string list \<Rightarrow> node \<Rightarrow> node list" where
  "find_all names n = filter (tag_matches names) (descendants n)"

definition find_tag :: "string \<Rightarrow> node \<Rightarrow> node option" where
  "find_tag name n = (case find_all [name] n of [] \<Rightarrow> None | x # xs \<Rightarrow> Some x)"

fun strings :: "node \<Rightarrow> string list" where
  "strings (Text s) = [s]"
| "strings (Element n cs) = concat (map strings cs)"

text \<open>
  \<open>tag.get_text(strip=True)\<close>: every text below the tag is stripped, the empty ones are
  left out, and the rest is concatenated.
\<close>

definition get_text :: "node \<Rightarrow> string" where
  "get_text n = concat (filter (\<lambda>s. s \<noteq> []) (map strip (strings n)))"

section \<open>The environment of a run\<close>

text \<open>
  The file system and the XML parser are parameters. An exception is the left summand,
  carrying its message. \<open>open_write\<close> is the opening of the output file: \<open>None\<close> when it
  succeeds.
\<close>

record env =
  listdir :: "string \<Rightarrow> string + string list"
  read_file :: "string \<Rightarrow> string + string"
  parse_xml :: "string \<Rightarrow> string + node"
  open_write :: "string \<Rightarrow> string option"

text \<open>The first two statements of every extraction function's \<open>try\<close> block.\<close>

definition load_soup :: "env \<Rightarrow> string \<Rightarrow> string + node" where
  "load_soup e file_path =
     (case read_file e file_path of
        Inl msg \<Rightarrow> Inl msg
      | Inr xml_content \<Rightarrow> parse_xml e xml_content)"

section \<open>extract_premise_and_requirement\<close>

definition premise_step :: "node \<Rightarrow> string \<times> string \<Rightarrow> string \<times> string" where
  "premise_step p st =
     (case st of (premise, requirement) \<Rightarrow>
        (let text = get_text p in
         if startswith text ''Premise:''
         then (strip (replace ''Premise:'' '''' text), requirement)
         else if startswith text ''Requirement:''
         then (premise, requirement @ strip (replace ''Requirement:'' '''' text) @ ''\<newline>'')
         else (premise, requirement)))"

definition premise_loop :: "node \<Rightarrow> string \<times> string" where
  "premise_loop soup =
     fold (\<lambda>entry st. fold premise_step (find_all [''p''] entry) st)
       (find_all [''entry''] soup) ('''', '''')"

definition premise_and_requirement :: "node \<Rightarrow> string" where
  "premise_and_requirement soup =
     (case premise_loop soup of (premise, requirement) \<Rightarrow>
        ''Premise:\<newline>'' @ premise @ ''\<newline>Requirement:\<newline>'' @ strip requirement)"

text \<open>Every function returns the lines it printed together with its result.\<close>

definition extract_premise_and_requirement :: "env \<Rightarrow> string \<Rightarrow> string list \<times> string" where
  "extract_premise_and_requirement e file_path =
     (case load_soup e file_path of
        Inl msg \<Rightarrow>
          ([''Error extracting Premise and Requirement from '' @ file_path @ '': '' @ msg], '''')
      | Inr soup \<Rightarrow> ([], premise_and_requirement soup))"

section \<open>extract_xd_note\<close>

definition note_step :: "node \<Rightarrow> string list \<times> string set \<Rightarrow> string list \<times> string set" where
  "note_step sibling st =
     (case st of (xd_notes, seen_notes) \<Rightarrow>
        (let note_text = get_text sibling in
         if note_text \<noteq> [] \<and> note_text \<notin> seen_notes
         then (xd_notes @ [note_text], insert note_text seen_notes)
         else (xd_notes, seen_notes)))"

definition marker_step ::
  "node \<Rightarrow> node \<Rightarrow> string list \<times> string set \<Rightarrow> string list \<times> string set" where
  "marker_step entry p st =
     (if lower (get_text p) = ''xd note''
      then fold note_step (find_all [''li'', ''p''] entry) st
      else st)"

definition xd_notes_of :: "node \<Rightarrow> string list" where
  "xd_notes_of soup =
     fst (fold (\<lambda>entry st. fold (marker_step entry) (find_all [''p''] entry) st)
            (find_all [''entry''] soup) ([], {}))"

definition extract_xd_note :: "env \<Rightarrow> string \<Rightarrow> string list \<times> string" where
  "extract_xd_note e file_path =
     (case load_soup e file_path of
        Inl msg \<Rightarrow> ([''Error extracting xd Notes from '' @ file_path @ '': '' @ msg], '''')
      | Inr soup \<Rightarrow> ([], join ''\<newline>'' (xd_notes_of soup)))"

section \<open>extract_section_content\<close>

text \<open>
  Nothing in the body of \<open>extract_section_content\<close> can raise on a parsed tree, so its
  \<open>except\<close> branch has no counterpart here.
\<close>

definition section_step :: "string \<Rightarrow> node \<Rightarrow> string list \<Rightarrow> string list" where
  "section_step section_name dlentry content =
     (case (find_tag ''dt'' dlentry, find_tag ''dd'' dlentry) of
        (Some dt, Some dd) \<Rightarrow>
          if contains (lower (get_text dt)) (lower section_name)
          then content @ [get_text dd]
          else content
      | _ \<Rightarrow> content)"

definition extract_section_content :: "node \<Rightarrow> string \<Rightarrow> string" where
  "extract_section_content soup section_name =
     join ''\<newline>'' (fold (section_step section_name) (find_all [''dlentry''] soup) [])"

section \<open>parse_testcase_dita\<close>

record custom_field =
  Action :: string
  Data :: string
  Expected_Result :: string

definition title_of :: "node \<Rightarrow> string" where
  "title_of soup =
     (case find_tag ''title'' soup of
        Some title_tag \<Rightarrow> get_text title_tag
      | None \<Rightarrow> ''Unknown Title'')"

definition field_step :: "node \<Rightarrow> node \<Rightarrow> custom_field list \<Rightarrow> custom_field list" where
  "field_step soup dlentry custom_fields =
     (case find_tag ''dt'' dlentry of
        None \<Rightarrow> custom_fields
      | Some dt \<Rightarrow>
          if startswith (get_text dt) ''R''
          then (let entry_id = get_text dt;
                    expected_results = extract_section_content soup ''Expected Results'';
                    procedures = extract_section_content soup ''Procedures'';
                    notes = extract_section_content soup ''Notes''
                in custom_fields @
                   [\<lparr>Action = ''*'' @ entry_id @ ''*\<newline>'' @ procedures,
                     Data = ''*Notes:*\<newline>'' @ notes,
                     Expected_Result = expected_results\<rparr>])
          else custom_fields)"

definition custom_fields_of :: "node \<Rightarrow> custom_field list" where
  "custom_fields_of soup = fold (field_step soup) (find_all [''dlentry''] soup) []"

definition parse_testcase_dita ::
  "env \<Rightarrow> string \<Rightarrow> string list \<times> (string option \<times> string option \<times> custom_field list option)" where
  "parse_testcase_dita e file_path =
     (case load_soup e file_path of
        Inl msg \<Rightarrow> ([''Error parsing '' @ file_path @ '': '' @ msg], (None, None, None))
      | Inr soup \<Rightarrow>
          (let title = title_of soup;
               (printed, xd_note) = extract_xd_note e file_path;
               custom_fields = custom_fields_of soup
           in (printed, (Some title, Some xd_note, Some custom_fields))))"

section \<open>parse_dita\<close>

definition dita_step ::
  "node \<Rightarrow> string list \<times> string \<times> string \<Rightarrow> string list \<times> string \<times> string" where
  "dita_step dlentry st =
     (case st of (description, premise, requirements) \<Rightarrow>
        (case (find_tag ''dt'' dlentry, find_tag ''dd'' dlentry) of
           (Some dt, Some dd) \<Rightarrow>
             (let header = lower (get_text dt);
                  body = get_text dd
              in if header = ''premise'' then (description, body, requirements)
                 else if header = ''requirements'' then (description, premise, body)
                 else (description @ [get_text dt @ '':\<newline>'' @ body], premise, requirements))
         | _ \<Rightarrow> (description, premise, requirements)))"

definition parse_dita_soup :: "node \<Rightarrow> string \<times> string \<times> string \<times> string" where
  "parse_dita_soup soup =
     (case fold dita_step (find_all [''dlentry''] soup) ([], '''', '''') of
        (description, premise, requirements) \<Rightarrow>
          (title_of soup, join ''\<newline>\<newline>'' description, premise, requirements))"

definition parse_dita ::
  "env \<Rightarrow> string \<Rightarrow>
   string list \<times> (string option \<times> string option \<times> string option \<times> string option)" where
  "parse_dita e file_path =
     (case load_soup e file_path of
        Inl msg \<Rightarrow> ([''Error parsing '' @ file_path @ '': '' @ msg], (None, None, None, None))
      | Inr soup \<Rightarrow>
          (case parse_dita_soup soup of (title, description, premise, requirements) \<Rightarrow>
             ([], (Some title, Some description, Some premise, Some requirements))))"

section \<open>json.dumps\<close>

text \<open>
  \<open>json.dumps\<close> with its defaults, on the values it is given here: \<open>None\<close> or a list of
  step records. Every character outside the printable ASCII range is escaped.
\<close>

definition hex_digits :: "char list" where
  "hex_digits = ''0123456789abcdef''"

definition json_escape_char :: "char \<Rightarrow> string" where
  \<open>json_escape_char c =
     (let n = (of_char c :: nat) in
      if c = CHR 0x22 then [CHR 0x5C, CHR 0x22]
      else if c = CHR 0x5C then [CHR 0x5C, CHR 0x5C]
      else if c = CHR 0x0A then [CHR 0x5C, CHR ''n'']
      else if c = CHR 0x0D then [CHR 0x5C, CHR ''r'']
      else if c = CHR 0x09 then [CHR 0x5C, CHR ''t'']
      else if c = CHR 0x08 then [CHR 0x5C, CHR ''b'']
      else if c = CHR 0x0C then [CHR 0x5C, CHR ''f'']
      else if 32 \<le> n \<and> n \<le> 126 then [c]
      else CHR 0x5C # ''u00'' @ [hex_digits ! (n div 16), hex_digits ! (n mod 16)])\<close>

definition json_string :: "string \<Rightarrow> string" where
  \<open>json_string s = CHR 0x22 # concat (map json_escape_char s) @ [CHR 0x22]\<close>

definition json_field :: "custom_field \<Rightarrow> string" where
  \<open>json_field f =
     ''{"fields": {"Action": '' @ json_string (Action f) @
     '', "Data": '' @ json_string (Data f) @
     '', "Expected Result": '' @ json_string (Expected_Result f) @ ''}}''\<close>

definition json_dumps :: "custom_field list option \<Rightarrow> string" where
  "json_dumps v =
     (case v of
        None \<Rightarrow> ''null''
      | Some custom_fields \<Rightarrow> ''['' @ join '', '' (map json_field custom_fields) @ '']'')"

section \<open>process_folder\<close>

text \<open>A cell of a row is a Python value: a string or \<open>None\<close>.\<close>

type_synonym row = "string option list"

definition csv_header :: row where
  "csv_header = [Some ''Summary'', Some ''Description'', Some ''Custom field (Premise)'',
     Some ''Custom Field Manual Test Steps'', Some ''Custom Field (xd Notes)'']"

definition dita_files :: "string list \<Rightarrow> string list" where
  "dita_files names = filter (\<lambda>f. endswith f ''.dita'') names"

text \<open>The dictionary keeps the position of a key's first insertion and its last value.\<close>

definition base_files :: "string list \<Rightarrow> (string \<times> string) list" where
  "base_files files =
     fold (\<lambda>f d. AList.update (rsplit1_head ''_testcase.dita'' f) f d)
       (filter (\<lambda>f. endswith f ''_testcase.dita'') files) []"

definition matched_files :: "string list \<Rightarrow> (string \<times> string) list" where
  "matched_files files =
     map (\<lambda>(base_name, testcase_file). (base_name @ ''.dita'', testcase_file))
       (filter (\<lambda>(base_name, testcase_file). base_name @ ''.dita'' \<in> set files)
          (base_files files))"

text \<open>The truth value of a string or \<open>None\<close> in a condition.\<close>

fun truthy :: "string option \<Rightarrow> bool" where
  "truthy None = False"
| "truthy (Some s) = (s \<noteq> [])"

text \<open>
  The body of the loop over the matched pairs. The state is what has been printed so far
  and \<open>data\<close>. The fourth component of \<open>parse_dita\<close>'s result is bound and never used.
\<close>

definition pair_step ::
  "env \<Rightarrow> string \<Rightarrow> string \<times> string \<Rightarrow> string list \<times> row list \<Rightarrow> string list \<times> row list" where
  "pair_step e input_folder pr st =
     (case pr of (base_file, testcase_file) \<Rightarrow>
      case st of (printed, data) \<Rightarrow>
        (let base_file_path = os_path_join input_folder base_file;
             testcase_file_path = os_path_join input_folder testcase_file;
             (printed1, custom_field_premise) = extract_premise_and_requirement e base_file_path;
             (printed2, base_title, base_description, premise, unused) =
               parse_dita e base_file_path;
             (printed3, testcase_title, xd_note, custom_fields) =
               parse_testcase_dita e testcase_file_path
         in (printed @ printed1 @ printed2 @ printed3,
             if truthy base_title \<and> truthy testcase_title
             then data @ [[base_title, base_description, Some custom_field_premise,
                           Some (json_dumps custom_fields), xd_note]]
             else data)))"

text \<open>
  The result is what was printed and, when the output file could be opened, the rows
  handed to the CSV writer.
\<close>

definition process_folder :: "env \<Rightarrow> string \<Rightarrow> string \<Rightarrow> string list \<times> row list option" where
  "process_folder e input_folder output_csv =
     (case listdir e input_folder of
        Inl msg \<Rightarrow> ([''Error processing folder: '' @ msg], None)
      | Inr names \<Rightarrow>
          (let files = dita_files names;
               (printed, data) = fold (pair_step e input_folder) (matched_files files) ([], [])
           in case open_write e output_csv of
                Some msg \<Rightarrow> (printed @ [''Error processing folder: '' @ msg], None)
              | None \<Rightarrow>
                  (printed @ [''CSV file created successfully: '' @ output_csv],
                   Some (csv_header # data))))"

section \<open>The specification's wording\<close>

subsection \<open>Premise and requirement block\<close>

text \<open>
  The texts of the paragraphs in the order the extraction visits them, and the block as
  the specification words it: the last paragraph starting with \<open>Premise:\<close> gives the
  premise, every paragraph starting with \<open>Requirement:\<close> adds its remainder, the prefix
  taken off, and a newline.
\<close>

definition paragraph_texts :: "node \<Rightarrow> string list" where
  "paragraph_texts soup =
     concat (map (\<lambda>entry. map get_text (find_all [''p''] entry)) (find_all [''entry''] soup))"

definition remainder :: "string \<Rightarrow> string \<Rightarrow> string" where
  "remainder label text = strip (drop (length label) text)"

definition spec_premise :: "string list \<Rightarrow> string" where
  "spec_premise texts =
     (case rev (filter (\<lambda>t. startswith t ''Premise:'') texts) of
        [] \<Rightarrow> []
      | t # ts \<Rightarrow> remainder ''Premise:'' t)"

definition spec_requirement :: "string list \<Rightarrow> string" where
  "spec_requirement texts =
     concat (map (\<lambda>t. remainder ''Requirement:'' t @ ''\<newline>'')
       (filter (\<lambda>t. startswith t ''Requirement:'') texts))"

definition spec_premise_and_requirement :: "string list \<Rightarrow> string" where
  "spec_premise_and_requirement texts =
     ''Premise:\<newline>'' @ spec_premise texts @ ''\<newline>Requirement:\<newline>'' @
     strip (spec_requirement texts)"

text \<open>
  A text in which a label it starts with does not come a second time, and the step of the
  specification's wording on the text of one paragraph.
\<close>

definition label_once :: "string \<Rightarrow> string \<Rightarrow> bool" where
  "label_once label t = (\<not> (startswith t label \<and> contains (drop (length label) t) label))"

definition text_step :: "string \<Rightarrow> string \<times> string \<Rightarrow> string \<times> string" where
  "text_step t st =
     (case st of (premise, requirement) \<Rightarrow>
        if startswith t ''Premise:'' then (remainder ''Premise:'' t, requirement)
        else if startswith t ''Requirement:''
        then (premise, requirement @ remainder ''Requirement:'' t @ ''\<newline>'')
        else (premise, requirement))"

subsection \<open>Step records\<close>





text \<open>The loop with the three section texts computed once, before it.\<close>

definition custom_fields_hoisted :: "node \<Rightarrow> custom_field list" where
  "custom_fields_hoisted soup =
     (let expected_results = extract_section_content soup ''Expected Results'';
          procedures = extract_section_content soup ''Procedures'';
          notes = extract_section_content soup ''Notes''
      in fold (\<lambda>dlentry custom_fields.
                 case find_tag ''dt'' dlentry of
                   None \<Rightarrow> custom_fields
                 | Some dt \<Rightarrow>
                     if startswith (get_text dt) ''R''
                     then custom_fields @
                          [\<lparr>Action = ''*'' @ get_text dt @ ''*\<newline>'' @ procedures,
                            Data = ''*Notes:*\<newline>'' @ notes,
                            Expected_Result = expected_results\<rparr>]
                     else custom_fields)
           (find_all [''dlentry''] soup) [])"

subsection \<open>Notes\<close>

text \<open>
  The texts the note scan meets, in the order it meets them, and the deduplication that
  keeps the first occurrence of every text.
\<close>

definition note_texts :: "node \<Rightarrow> string list" where
  "note_texts soup =
     concat (map (\<lambda>entry.
       concat (map (\<lambda>p. if lower (get_text p) = ''xd note''
                         then map get_text (find_all [''li'', ''p''] entry) else [])
                 (find_all [''p''] entry)))
       (find_all [''entry''] soup))"

fun dedup_first :: "'a list \<Rightarrow> 'a list" where
  "dedup_first [] = []"
| "dedup_first (x # xs) = x # dedup_first (filter (\<lambda>y. y \<noteq> x) xs)"

subsection \<open>Documents that differ in a requirements description\<close>





subsection \<open>Auxiliary notions of the proofs\<close>


text \<open>The nodes the note scan collects from an entry at one of its paragraphs.\<close>

definition note_nodes :: "node \<Rightarrow> node \<Rightarrow> node list" where
  "note_nodes entry p =
     (if lower (get_text p) = ''xd note'' then find_all [''li'', ''p''] entry else [])"

subsection \<open>The contribution of one pair\<close>

definition pair_printed :: "env \<Rightarrow> string \<Rightarrow> string \<times> string \<Rightarrow> string list" where
  "pair_printed e input_folder pr = fst (pair_step e input_folder pr ([], []))"

definition pair_rows :: "env \<Rightarrow> string \<Rightarrow> string \<times> string \<Rightarrow> row list" where
  "pair_rows e input_folder pr = snd (pair_step e input_folder pr ([], []))"

section \<open>Sample documents and runs\<close>

definition dlentry_of :: "string \<Rightarrow> string \<Rightarrow> node" where
  "dlentry_of term_text description =
     Element ''dlentry'' [Element ''dt'' [Text term_text], Element ''dd'' [Text description]]"

definition document_of :: "node list \<Rightarrow> node list \<Rightarrow> node list \<Rightarrow> node" where
  "document_of title_nodes dlentries entries =
     Element ''[document]''
       [Element ''topic'' (title_nodes @
          [Element ''body'' [Element ''dl'' dlentries, Element ''table'' entries]])]"

definition sample_base :: node where
  "sample_base =
     document_of [Element ''title'' [Text '' Base Title '']]
       [dlentry_of ''Overview'' ''General text'', dlentry_of ''Premise'' ''P0'',
        dlentry_of ''Requirements'' ''Q0'']
       [Element ''entry'' [Element ''p'' [Text ''Premise: A''],
          Element ''p'' [Text ''Requirement: B''], Element ''p'' [Text ''Requirement: C'']]]"

definition sample_testcase :: node where
  "sample_testcase =
     document_of [Element ''title'' [Text ''Case Title'']]
       [dlentry_of ''R1'' ''first'', dlentry_of ''Expected Results'' ''ok'',
        dlentry_of ''Procedures'' ''do'', dlentry_of ''Notes'' ''n'']
       [Element ''entry'' [Element ''p'' [Text ''XD Note''],
          Element ''ul'' [Element ''li'' [Text ''x''], Element ''li'' [Text ''y''],
            Element ''li'' [Text ''x''], Element ''li'' [Text ''z'']]]]"

text \<open>A testcase document with no title element, and a base document whose title is blank.\<close>

definition no_title_testcase :: node where
  "no_title_testcase = document_of [] [] [Element ''entry'' [Element ''p'' [Text ''plain'']]]"

definition blank_title_base :: node where
  "blank_title_base =
     document_of [Element ''title'' [Text ''  '', Element ''ph'' [Text []]]]
       [dlentry_of ''Overview'' ''General text''] []"

text \<open>
  A folder with the pair \<open>foo\<close>, whose files parse to the given documents, the pair \<open>bar\<close>,
  whose base file cannot be read and whose testcase file does not parse, and a testcase
  file \<open>baz\<close> without its base file.
\<close>

definition sample_env :: "node \<Rightarrow> node \<Rightarrow> env" where
  "sample_env base testcase =
     \<lparr>listdir = (\<lambda>d. if d = ''TRC''
                    then Inr [''bar.dita'', ''bar_testcase.dita'', ''foo.dita'',
                              ''foo_testcase.dita'', ''baz_testcase.dita'', ''notes.txt'']
                    else Inl ''No such file or directory''),
      read_file = (\<lambda>p. if p = ''TRC/foo.dita'' then Inr ''base''
                     else if p = ''TRC/foo_testcase.dita'' then Inr ''testcase''
                     else if p = ''TRC/bar_testcase.dita'' then Inr ''broken''
                     else Inl ''Permission denied''),
      parse_xml = (\<lambda>c. if c = ''base'' then Inr base
                     else if c = ''testcase'' then Inr testcase
                     else Inl ''syntax error''),
      open_write = (\<lambda>p. None)\<rparr>"

text \<open>
  A testcase document with two marked entries, whose items differ in case and come again
  in the second entry.
\<close>

definition mixed_case_testcase :: node where
  "mixed_case_testcase =
     document_of [Element ''title'' [Text ''Case Title'']] []
       [Element ''entry'' [Element ''p'' [Text ''xd note''], Element ''li'' [Text ''x''],
          Element ''li'' [Text ''X''], Element ''li'' [Text ''x'']],
        Element ''entry'' [Element ''p'' [Text ''xd note''], Element ''li'' [Text ''X''],
          Element ''li'' [Text ''w'']]]"

text \<open>
  A base document whose requirements description has the content \<open>bs\<close>, the entry
  standing in the definition list of the body.
\<close>

definition described_base :: "node list \<Rightarrow> node" where
  "described_base bs =
     document_of [Element ''title'' [Text ''Base Title'']]
       [dlentry_of ''Overview'' ''General text'',
        Element ''dlentry'' [Element ''dt'' [Text ''Requirements''], Element ''dd'' bs]]
       [Element ''entry'' [Element ''p'' [Text ''Premise: A'']]]"


text \<open>A base document in which a requirement paragraph names the label a second time.\<close>

definition repeated_label_base :: node where
  "repeated_label_base =
     document_of [Element ''title'' [Text ''Base Title'']] []
       [Element ''entry'' [Element ''p'' [Text ''Premise: A''],
          Element ''p'' [Text ''Requirement: B Requirement: C'']]]"


section \<open>Pairing of the files\<close>

lemma endswith_append: "endswith (b @ p) p"
  by (simp add: endswith_def)

lemma endswith_split: "endswith f p \<Longrightarrow> \<exists>b. f = b @ p"
  unfolding endswith_def by (metis append_take_drop_id)

lemma endswith_iff: "endswith f p \<longleftrightarrow> (\<exists>b. f = b @ p)"
  using endswith_append endswith_split by blast

lemma rfind_from_hit: "startswith (drop i s) sep \<Longrightarrow> rfind_from s sep i = Some i"
  by (cases i) simp_all

lemma rsplit1_head_suffix: "rsplit1_head sep (b @ sep) = b"
proof -
  have "rfind_from (b @ sep) sep (length b) = Some (length b)"
    by (rule rfind_from_hit) (simp add: startswith_def)
  then show ?thesis by (simp add: rsplit1_head_def rfind_def)
qed

lemma map_of_fold_update:
  "map_of (fold (\<lambda>f d. AList.update (k f) f d) fs d) =
   fold (\<lambda>f m. m(k f \<mapsto> f)) fs (map_of d)"
  by (induction fs arbitrary: d) (simp_all add: update_conv')

lemma distinct_fold_update:
  "distinct (map fst d) \<Longrightarrow> distinct (map fst (fold (\<lambda>f d. AList.update (k f) f d) fs d))"
  by (induction fs arbitrary: d) (simp_all add: distinct_update)

lemma fold_upd_Some:
  assumes "\<forall>f \<in> set fs. f = k f @ suf"
  shows "fold (\<lambda>f m. m(k f \<mapsto> f)) fs m b =
         (if b @ suf \<in> set fs then Some (b @ suf) else m b)"
proof -
  define G where "G = (\<lambda>f (m :: 'a list \<rightharpoonup> 'a list). m(k f \<mapsto> f))"
  have "fold G fs m b = (if b @ suf \<in> set fs then Some (b @ suf) else m b)"
    using assms
  proof (induction fs rule: rev_induct)
    case Nil
    then show ?case by simp
  next
    case (snoc f fs)
    have f: "f = k f @ suf" using snoc.prems by simp
    have ih: "fold G fs m b = (if b @ suf \<in> set fs then Some (b @ suf) else m b)"
      using snoc by simp
    have eq: "b @ suf = f \<longleftrightarrow> b = k f" using f by (metis append_same_eq)
    have "fold G (fs @ [f]) m b = (G f (fold G fs m)) b" by simp
    also have "\<dots> = (if b = k f then Some f else fold G fs m b)" by (simp add: G_def)
    finally show ?case using ih eq by auto
  qed
  then show ?thesis by (simp only: G_def)
qed

lemma set_base_files:
  "set (base_files files) =
   {(b, b @ ''_testcase.dita'') | b. b @ ''_testcase.dita'' \<in> set files}"
proof -
  let ?suf = "''_testcase.dita''"
  let ?k = "rsplit1_head ?suf"
  let ?tcs = "filter (\<lambda>f. endswith f ?suf) files"
  have key: "\<forall>f \<in> set ?tcs. f = ?k f @ ?suf"
  proof
    fix f assume "f \<in> set ?tcs"
    then have "endswith f ?suf" by simp
    then obtain b where "f = b @ ?suf" using endswith_split by blast
    then show "f = ?k f @ ?suf" using rsplit1_head_suffix[of ?suf b] by simp
  qed
  have dist: "distinct (map fst (base_files files))"
    unfolding base_files_def by (rule distinct_fold_update) simp
  have mo: "map_of (base_files files) b =
            (if b @ ?suf \<in> set ?tcs then Some (b @ ?suf) else None)" for b
    unfolding base_files_def map_of_fold_update using fold_upd_Some[OF key] by simp
  have mem: "b @ ?suf \<in> set ?tcs \<longleftrightarrow> b @ ?suf \<in> set files" for b
    using endswith_append[of b ?suf] by simp
  have "(b, v) \<in> set (base_files files) \<longleftrightarrow> (v = b @ ?suf \<and> b @ ?suf \<in> set files)" for b v
    using map_of_eq_Some_iff[OF dist, of b v] mo[of b] mem[of b] by auto
  then show ?thesis by auto
qed

lemma set_dita_files: "b @ ''.dita'' \<in> set (dita_files names) \<longleftrightarrow> b @ ''.dita'' \<in> set names"
  using endswith_append[of b "''.dita''"] by (simp add: dita_files_def)

lemma testcase_dita_files:
  "b @ ''_testcase.dita'' \<in> set (dita_files names) \<longleftrightarrow> b @ ''_testcase.dita'' \<in> set names"
proof -
  have "endswith ((b @ ''_testcase'') @ ''.dita'') ''.dita''" by (rule endswith_append)
  then show ?thesis by (simp add: dita_files_def)
qed

lemma distinct_matched_files: "distinct (matched_files files)"
proof -
  have dist: "distinct (map fst (base_files files))"
    unfolding base_files_def by (rule distinct_fold_update) simp
  then have d: "distinct (base_files files)" by (simp add: distinct_map)
  have "inj_on (\<lambda>(base_name, testcase_file). (base_name @ ''.dita'', testcase_file)) A"
    for A :: "(string \<times> string) set"
    by (auto simp: inj_on_def)
  then show ?thesis unfolding matched_files_def using d by (simp add: distinct_map)
qed

text \<open>
  C4. For every listing of the input folder, the pairs are exactly the
  (\<open>b.dita\<close>, \<open>b_testcase.dita\<close>) for which both names are in the listing; a testcase
  file without its base file gives no pair, and no pair comes twice. The listing
  \<open>foo.dita\<close>, \<open>foo_testcase.dita\<close>, \<open>bar_testcase.dita\<close> gives the single pair
  (\<open>foo.dita\<close>, \<open>foo_testcase.dita\<close>).
\<close>

theorem pairing:
  "set (matched_files (dita_files names)) =
     {(b @ ''.dita'', b @ ''_testcase.dita'') | b.
        b @ ''_testcase.dita'' \<in> set names \<and> b @ ''.dita'' \<in> set names}
   \<and> distinct (matched_files (dita_files names))
   \<and> matched_files (dita_files [''foo.dita'', ''foo_testcase.dita'', ''bar_testcase.dita'']) =
       [(''foo.dita'', ''foo_testcase.dita'')]"
proof -
  have 1: "set (matched_files (dita_files names)) =
     {(b @ ''.dita'', b @ ''_testcase.dita'') | b.
        b @ ''_testcase.dita'' \<in> set names \<and> b @ ''.dita'' \<in> set names}"
    unfolding matched_files_def
    by (auto simp: set_base_files set_dita_files testcase_dita_files)
  have 3: "matched_files (dita_files [''foo.dita'', ''foo_testcase.dita'', ''bar_testcase.dita'']) =
       [(''foo.dita'', ''foo_testcase.dita'')]"
    by code_simp
  show ?thesis using 1 3 distinct_matched_files by blast
qed

theorem pairing_witness:
  "set (matched_files (dita_files [''a.dita'', ''a_testcase.dita'', ''b_testcase.dita''])) =
     {(b @ ''.dita'', b @ ''_testcase.dita'') | b.
        b @ ''_testcase.dita'' \<in> set [''a.dita'', ''a_testcase.dita'', ''b_testcase.dita''] \<and>
        b @ ''.dita'' \<in> set [''a.dita'', ''a_testcase.dita'', ''b_testcase.dita'']}"
  using pairing[of "[''a.dita'', ''a_testcase.dita'', ''b_testcase.dita'']"] by blast

section \<open>Step records\<close>






lemma hoisted_fold:
  "fold (\<lambda>dlentry custom_fields.
                 case find_tag ''dt'' dlentry of
                   None \<Rightarrow> custom_fields
                 | Some dt \<Rightarrow>
                     if startswith (get_text dt) ''R''
                     then custom_fields @
                          [\<lparr>Action = ''*'' @ get_text dt @ ''*\<newline>'' @ extract_section_content soup ''Procedures'',
                            Data = ''*Notes:*\<newline>'' @ extract_section_content soup ''Notes'',
                            Expected_Result = extract_section_content soup ''Expected Results''\<rparr>]
                     else custom_fields) ds acc = fold (field_step soup) ds acc"
  by (induction ds arbitrary: acc) (auto simp: field_step_def split: option.splits)

text \<open>
  C9. The section texts depend on the document and the section name only, so the loop
  that computes the three of them once, before the qualifying terms are visited, yields the
  same list of step records as the loop that computes them again for every term.
\<close>

theorem hoisting: "custom_fields_hoisted soup = custom_fields_of soup"
  by (simp add: custom_fields_hoisted_def custom_fields_of_def hoisted_fold)

theorem hoisting_witness:
  "custom_fields_hoisted sample_testcase = custom_fields_of sample_testcase
   \<and> custom_fields_of sample_testcase =
       [\<lparr>Action = ''*R1*\<newline>do'', Data = ''*Notes:*\<newline>n'', Expected_Result = ''ok''\<rparr>]"
proof -
  have "custom_fields_of sample_testcase =
       [\<lparr>Action = ''*R1*\<newline>do'', Data = ''*Notes:*\<newline>n'', Expected_Result = ''ok''\<rparr>]"
    by code_simp
  then show ?thesis using hoisting[of sample_testcase] by blast
qed

section \<open>Notes\<close>

lemma set_dedup_first: "set (dedup_first xs) = set xs"
  by (induction xs rule: dedup_first.induct) auto

lemma distinct_dedup_first: "distinct (dedup_first xs)"
  by (induction xs rule: dedup_first.induct) (auto simp: set_dedup_first)

lemma note_fold:
  "fold note_step sibs (acc, set acc) =
   (acc @ dedup_first (filter (\<lambda>t. t \<noteq> [] \<and> t \<notin> set acc) (map get_text sibs)),
    set (acc @ dedup_first (filter (\<lambda>t. t \<noteq> [] \<and> t \<notin> set acc) (map get_text sibs))))"
proof (induction sibs arbitrary: acc)
  case Nil
  then show ?case by simp
next
  case (Cons x sibs)
  let ?t = "get_text x"
  show ?case
  proof (cases "?t \<noteq> [] \<and> ?t \<notin> set acc")
    case True
    have st: "note_step x (acc, set acc) = (acc @ [?t], set (acc @ [?t]))"
      using True by (simp add: note_step_def Let_def)
    have f: "filter (\<lambda>y. y \<noteq> ?t) (filter (\<lambda>t. t \<noteq> [] \<and> t \<notin> set acc) (map get_text sibs)) =
             filter (\<lambda>t. t \<noteq> [] \<and> t \<notin> set (acc @ [?t])) (map get_text sibs)"
      by (auto intro: filter_cong)
    show ?thesis using True Cons.IH[of "acc @ [?t]"] st f by simp
  next
    case False
    have st: "note_step x (acc, set acc) = (acc, set acc)"
      using False by (auto simp: note_step_def Let_def)
    show ?thesis using False Cons.IH[of acc] st by auto
  qed
qed

lemma marker_fold:
  "fold (marker_step entry) ps st = fold note_step (concat (map (note_nodes entry) ps)) st"
  by (induction ps arbitrary: st) (simp_all add: marker_step_def note_nodes_def)

lemma entries_fold:
  "fold (\<lambda>entry st. fold (marker_step entry) (find_all [''p''] entry) st) es st =
   fold note_step
     (concat (map (\<lambda>entry. concat (map (note_nodes entry) (find_all [''p''] entry))) es)) st"
  by (induction es arbitrary: st) (simp_all add: marker_fold)

lemma note_texts_nodes:
  "note_texts soup =
   map get_text (concat (map (\<lambda>entry. concat (map (note_nodes entry) (find_all [''p''] entry)))
     (find_all [''entry''] soup)))"
  by (simp add: note_texts_def map_concat comp_def note_nodes_def if_distrib cong: if_cong)

lemma xd_notes_of_eq:
  "xd_notes_of soup = dedup_first (filter (\<lambda>t. t \<noteq> []) (note_texts soup))"
  using note_fold[of _ "[]"]
  by (simp add: xd_notes_of_def entries_fold note_texts_nodes)

lemma find_all_p_subset: "set (find_all [''p''] n) \<subseteq> set (find_all [''li'', ''p''] n)"
proof -
  have "tag_matches [''p''] x \<Longrightarrow> tag_matches [''li'', ''p''] x" for x
    by (cases x) simp_all
  then show ?thesis by (auto simp: find_all_def)
qed

lemma marker_text_in_notes:
  assumes "entry \<in> set (find_all [''entry''] soup)"
    and "p \<in> set (find_all [''p''] entry)"
    and "lower (get_text p) = ''xd note''"
  shows "get_text p \<in> set (xd_notes_of soup)"
proof -
  have ne: "get_text p \<noteq> []" using assms(3) by (auto simp: lower_def)
  have "p \<in> set (note_nodes entry p)"
    using assms(2,3) find_all_p_subset by (auto simp: note_nodes_def)
  then have "get_text p \<in> set (note_texts soup)"
    unfolding note_texts_nodes using assms(1,2) by auto
  then show ?thesis using ne by (simp add: xd_notes_of_eq set_dedup_first)
qed

lemma notes_hold_marker:
  assumes "xd_notes_of soup \<noteq> []"
  shows "\<exists>t. t \<in> set (xd_notes_of soup) \<and> lower t = ''xd note''"
proof -
  have "set (xd_notes_of soup) \<noteq> {}" using assms by simp
  then have "set (note_texts soup) \<noteq> {}"
    by (auto simp: xd_notes_of_eq set_dedup_first)
  then obtain entry p where ep: "entry \<in> set (find_all [''entry''] soup)"
    "p \<in> set (find_all [''p''] entry)" "note_nodes entry p \<noteq> []"
    unfolding note_texts_nodes by auto
  have "lower (get_text p) = ''xd note''"
    using ep(3) by (auto simp: note_nodes_def split: if_splits)
  then show ?thesis using marker_text_in_notes[OF ep(1,2)] by blast
qed

lemma not_markers:
  "lower ''x'' \<noteq> ''xd note''" "lower ''y'' \<noteq> ''xd note''" "lower ''z'' \<noteq> ''xd note''"
  by code_simp+

lemma notes_not_xyz: "xd_notes_of soup \<noteq> [''x'', ''y'', ''z'']"
proof
  assume a: "xd_notes_of soup = [''x'', ''y'', ''z'']"
  then have "xd_notes_of soup \<noteq> []" by simp
  then obtain t where "t \<in> set (xd_notes_of soup)" "lower t = ''xd note''"
    using notes_hold_marker by blast
  then show False using a not_markers by auto
qed

text \<open>
  C5, as amended. The notes are the non-empty texts the scan meets, over all entries that
  hold the marker, each kept at its first occurrence only, in the order of these
  occurrences; the comparison is exact, so texts that differ in case are all kept. The
  extraction of a file that loads returns the notes joined by newlines. The scan of a
  marked entry includes the marker paragraph, so notes that are not empty hold a marker
  text, and no document yields the notes \<open>x, y, z\<close>.
\<close>

theorem note_extraction:
  "(load_soup e file_path = Inr soup \<longrightarrow>
      extract_xd_note e file_path =
        ([], join ''\<newline>'' (dedup_first (filter (\<lambda>t. t \<noteq> []) (note_texts soup)))))
   \<and> xd_notes_of soup = dedup_first (filter (\<lambda>t. t \<noteq> []) (note_texts soup))
   \<and> distinct (xd_notes_of soup)
   \<and> set (xd_notes_of soup) = set (note_texts soup) - {''''}
   \<and> (xd_notes_of soup \<noteq> [] \<longrightarrow>
        (\<exists>t. t \<in> set (xd_notes_of soup) \<and> lower t = ''xd note''))
   \<and> xd_notes_of soup \<noteq> [''x'', ''y'', ''z'']"
proof -
  have "extract_xd_note e file_path =
        ([], join ''\<newline>'' (dedup_first (filter (\<lambda>t. t \<noteq> []) (note_texts soup))))"
    if "load_soup e file_path = Inr soup"
    using that by (simp add: extract_xd_note_def xd_notes_of_eq)
  moreover have "set (xd_notes_of soup) = set (note_texts soup) - {''''}"
    by (auto simp: xd_notes_of_eq set_dedup_first)
  moreover have "distinct (xd_notes_of soup)"
    by (simp add: xd_notes_of_eq distinct_dedup_first)
  moreover have "xd_notes_of soup = dedup_first (filter (\<lambda>t. t \<noteq> []) (note_texts soup))"
    by (rule xd_notes_of_eq)
  ultimately show ?thesis
    using notes_hold_marker[of soup] notes_not_xyz[of soup] by blast
qed

theorem note_extraction_witness:
  "load_soup (sample_env sample_base sample_testcase) ''TRC/foo_testcase.dita'' =
     Inr sample_testcase
   \<and> note_texts sample_testcase = [''XD Note'', ''x'', ''y'', ''x'', ''z'']
   \<and> extract_xd_note (sample_env sample_base sample_testcase) ''TRC/foo_testcase.dita'' =
       ([], ''XD Note\<newline>x\<newline>y\<newline>z'')
   \<and> note_texts mixed_case_testcase = [''xd note'', ''x'', ''X'', ''x'', ''xd note'', ''X'', ''w'']
   \<and> xd_notes_of mixed_case_testcase = [''xd note'', ''x'', ''X'', ''w'']"
proof -
  let ?e = "sample_env sample_base sample_testcase"
  have 1: "load_soup ?e ''TRC/foo_testcase.dita'' = Inr sample_testcase" by code_simp
  have 2: "note_texts sample_testcase = [''XD Note'', ''x'', ''y'', ''x'', ''z'']"
    by code_simp
  have 3: "note_texts mixed_case_testcase =
           [''xd note'', ''x'', ''X'', ''x'', ''xd note'', ''X'', ''w'']"
    by code_simp
  have 4: "join ''\<newline>'' (dedup_first (filter (\<lambda>t. t \<noteq> [])
             [''XD Note'', ''x'', ''y'', ''x'', ''z''])) = ''XD Note\<newline>x\<newline>y\<newline>z''"
    by simp
  have 5: "dedup_first (filter (\<lambda>t. t \<noteq> [])
             [''xd note'', ''x'', ''X'', ''x'', ''xd note'', ''X'', ''w'']) =
           [''xd note'', ''x'', ''X'', ''w'']"
    by simp
  have "extract_xd_note ?e ''TRC/foo_testcase.dita'' =
        ([], join ''\<newline>'' (dedup_first (filter (\<lambda>t. t \<noteq> []) (note_texts sample_testcase))))"
    using 1 note_extraction[of ?e "''TRC/foo_testcase.dita''" sample_testcase] by blast
  then have 6: "extract_xd_note ?e ''TRC/foo_testcase.dita'' = ([], ''XD Note\<newline>x\<newline>y\<newline>z'')"
    by (simp only: 2 4)
  have "xd_notes_of mixed_case_testcase =
        dedup_first (filter (\<lambda>t. t \<noteq> []) (note_texts mixed_case_testcase))"
    using note_extraction[of ?e "''TRC/foo_testcase.dita''" mixed_case_testcase] by blast
  then have 7: "xd_notes_of mixed_case_testcase = [''xd note'', ''x'', ''X'', ''w'']"
    by (simp only: 3 5)
  show ?thesis using 1 2 3 6 7 by blast
qed

text \<open>
  The claim C5 as it was stated fails: the marked entry of this document holds the items
  \<open>x, y, x, z\<close>, and the notes are not \<open>x, y, z\<close>: the text of the marker paragraph
  comes first.
\<close>

theorem marker_first_counterexample:
  "find_all [''li''] sample_testcase =
     [Element ''li'' [Text ''x''], Element ''li'' [Text ''y''],
      Element ''li'' [Text ''x''], Element ''li'' [Text ''z'']]
   \<and> xd_notes_of sample_testcase = [''XD Note'', ''x'', ''y'', ''z'']
   \<and> xd_notes_of sample_testcase \<noteq> [''x'', ''y'', ''z'']
   \<and> extract_xd_note (sample_env sample_base sample_testcase) ''TRC/foo_testcase.dita'' =
       ([], ''XD Note\<newline>x\<newline>y\<newline>z'')"
  by code_simp



section \<open>The loop over the pairs\<close>

lemma pair_step_acc:
  "pair_step e folder pr (printed, data) =
   (printed @ pair_printed e folder pr, data @ pair_rows e folder pr)"
  by (auto simp: pair_step_def pair_printed_def pair_rows_def Let_def split: prod.splits)

lemma fold_pair_step:
  "fold (pair_step e folder) prs (printed, data) =
   (printed @ concat (map (pair_printed e folder) prs),
    data @ concat (map (pair_rows e folder) prs))"
  by (induction prs arbitrary: printed data) (simp_all add: pair_step_acc)

lemma parse_dita_title:
  "fst (snd (parse_dita e p)) =
   (case load_soup e p of Inl msg \<Rightarrow> None | Inr soup \<Rightarrow> Some (title_of soup))"
  by (simp add: parse_dita_def parse_dita_soup_def split: sum.splits prod.splits)

lemma parse_testcase_dita_title:
  "fst (snd (parse_testcase_dita e p)) =
   (case load_soup e p of Inl msg \<Rightarrow> None | Inr soup \<Rightarrow> Some (title_of soup))"
  by (simp add: parse_testcase_dita_def Let_def split: sum.splits prod.splits)

lemma pair_rows_length:
  "length (pair_rows e folder (b, t)) =
   (if truthy (fst (snd (parse_dita e (os_path_join folder b)))) \<and>
       truthy (fst (snd (parse_testcase_dita e (os_path_join folder t))))
    then 1 else 0)"
  by (simp add: pair_rows_def pair_step_def Let_def split: prod.splits)

lemma pair_printed_eq:
  "pair_printed e folder (b, t) =
   fst (extract_premise_and_requirement e (os_path_join folder b)) @
   fst (parse_dita e (os_path_join folder b)) @
   fst (parse_testcase_dita e (os_path_join folder t))"
  by (simp add: pair_printed_def pair_step_def Let_def split: prod.splits)

lemma strip_blank: "\<forall>c \<in> set s. is_space c \<Longrightarrow> strip s = []"
proof -
  assume "\<forall>c \<in> set s. is_space c"
  then have "lstrip s = []" by (simp add: lstrip_def dropWhile_eq_Nil_conv)
  then show ?thesis by (simp add: strip_def rstrip_def)
qed

lemma get_text_blank:
  assumes "\<forall>s \<in> set (strings t). \<forall>c \<in> set s. is_space c"
  shows "get_text t = []"
proof -
  have "\<forall>s \<in> set (strings t). strip s = []" using assms strip_blank by blast
  then have "filter (\<lambda>s. s \<noteq> []) (map strip (strings t)) = []"
    by (simp add: filter_empty_conv)
  then show ?thesis by (simp add: get_text_def)
qed

text \<open>
  C1, as amended. A pair adds one row when both titles are strings that are not empty, and
  no row otherwise. A testcase document without a title element has the title
  \<open>Unknown Title\<close>, which is not empty, so the missing element does not hold the row back.
  Skipping a pair prints nothing: what the step prints is what the three extractors print.
\<close>

theorem title_gate:
  "snd (pair_step e folder (b, t) (printed, data)) = data @ pair_rows e folder (b, t)
   \<and> length (pair_rows e folder (b, t)) =
       (if truthy (fst (snd (parse_dita e (os_path_join folder b)))) \<and>
           truthy (fst (snd (parse_testcase_dita e (os_path_join folder t))))
        then 1 else 0)
   \<and> (load_soup e (os_path_join folder t) = Inr soup \<longrightarrow> find_tag ''title'' soup = None \<longrightarrow>
        fst (snd (parse_testcase_dita e (os_path_join folder t))) = Some ''Unknown Title''
        \<and> truthy (fst (snd (parse_testcase_dita e (os_path_join folder t)))))
   \<and> fst (pair_step e folder (b, t) (printed, data)) =
       printed @ fst (extract_premise_and_requirement e (os_path_join folder b)) @
       fst (parse_dita e (os_path_join folder b)) @
       fst (parse_testcase_dita e (os_path_join folder t))"
  by (simp add: pair_step_acc pair_rows_length pair_printed_eq parse_testcase_dita_title title_of_def)

theorem title_gate_witness:
  "load_soup (sample_env sample_base no_title_testcase) (os_path_join ''TRC'' ''foo_testcase.dita'') =
     Inr no_title_testcase
   \<and> find_tag ''title'' no_title_testcase = None
   \<and> fst (snd (parse_testcase_dita (sample_env sample_base no_title_testcase)
        (os_path_join ''TRC'' ''foo_testcase.dita''))) = Some ''Unknown Title''
   \<and> length (pair_rows (sample_env sample_base no_title_testcase) ''TRC''
        (''foo.dita'', ''foo_testcase.dita'')) = 1
   \<and> length (pair_rows (sample_env sample_base no_title_testcase) ''TRC''
        (''bar.dita'', ''bar_testcase.dita'')) = 0"
proof -
  let ?e = "sample_env sample_base no_title_testcase"
  have 1: "load_soup ?e (os_path_join ''TRC'' ''foo_testcase.dita'') = Inr no_title_testcase"
    by code_simp
  have 2: "find_tag ''title'' no_title_testcase = None" by code_simp
  have 3: "truthy (fst (snd (parse_dita ?e (os_path_join ''TRC'' ''foo.dita''))))"
    by code_simp
  have 4: "\<not> truthy (fst (snd (parse_dita ?e (os_path_join ''TRC'' ''bar.dita''))))"
    by code_simp
  show ?thesis
    using 1 2 3 4
      title_gate[of ?e "''TRC''" "''foo.dita''" "''foo_testcase.dita''" "[]" "[]" no_title_testcase]
      title_gate[of ?e "''TRC''" "''bar.dita''" "''bar_testcase.dita''" "[]" "[]" no_title_testcase]
    by simp
qed

text \<open>
  The claim C1 as it was stated fails: the testcase document of this run has no title
  element, and the run writes the row of the pair.
\<close>

theorem no_title_counterexample:
  "load_soup (sample_env sample_base no_title_testcase) ''TRC/foo_testcase.dita'' =
     Inr no_title_testcase
   \<and> find_tag ''title'' no_title_testcase = None
   \<and> snd (process_folder (sample_env sample_base no_title_testcase) ''TRC'' ''out.csv'') =
       Some [csv_header,
             [Some ''Base Title'', Some ''Overview:\<newline>General text'',
              Some ''Premise:\<newline>A\<newline>Requirement:\<newline>B\<newline>C'', Some ''[]'', Some []]]"
  by code_simp

text \<open>
  C10. When the first title element of a document holds only white space, the title is
  the empty string, not \<open>Unknown Title\<close>, in \<open>parse_dita\<close> and in \<open>parse_testcase_dita\<close>,
  and a pair whose base or testcase document is such a document adds no row.
\<close>

theorem empty_title:
  assumes "find_tag ''title'' soup = Some t"
    and "\<forall>s \<in> set (strings t). \<forall>c \<in> set s. is_space c"
  shows "title_of soup = [] \<and> title_of soup \<noteq> ''Unknown Title''
    \<and> (load_soup e p = Inr soup \<longrightarrow>
          fst (snd (parse_dita e p)) = Some [] \<and> fst (snd (parse_testcase_dita e p)) = Some [])
    \<and> (load_soup e (os_path_join folder b) = Inr soup \<or>
        load_soup e (os_path_join folder tc) = Inr soup \<longrightarrow>
          snd (pair_step e folder (b, tc) (printed, data)) = data)"
proof -
  have t: "title_of soup = []"
    using assms get_text_blank[of t] by (simp add: title_of_def)
  have "pair_rows e folder (b, tc) = []"
    if "load_soup e (os_path_join folder b) = Inr soup \<or>
        load_soup e (os_path_join folder tc) = Inr soup"
    using that t pair_rows_length[of e folder b tc]
    by (auto simp: parse_dita_title parse_testcase_dita_title)
  then show ?thesis
    using t by (auto simp: parse_dita_title parse_testcase_dita_title pair_step_acc)
qed

theorem empty_title_witness:
  "title_of blank_title_base = []
   \<and> load_soup (sample_env blank_title_base sample_testcase) (os_path_join ''TRC'' ''foo.dita'') =
       Inr blank_title_base
   \<and> snd (pair_step (sample_env blank_title_base sample_testcase) ''TRC''
        (''foo.dita'', ''foo_testcase.dita'') ([], [])) = []"
proof -
  let ?e = "sample_env blank_title_base sample_testcase"
  let ?t = "Element ''title'' [Text ''  '', Element ''ph'' [Text []]]"
  have 1: "find_tag ''title'' blank_title_base = Some ?t" by code_simp
  have 2: "\<forall>s \<in> set (strings ?t). \<forall>c \<in> set s. is_space c" by code_simp
  have 3: "load_soup ?e (os_path_join ''TRC'' ''foo.dita'') = Inr blank_title_base"
    by code_simp
  show ?thesis
    using 3 empty_title[OF 1 2, of ?e "os_path_join ''TRC'' ''foo.dita''" "''TRC''" "''foo.dita''"
        "''foo_testcase.dita''" "[]" "[]"]
    by blast
qed

text \<open>
  C7. When reading or parsing a file raises, each extraction function returns its degraded
  result and prints one line with the path and the message. A pair with a failed file adds
  no row; whatever the files do, a run whose folder can be listed and whose output can be
  opened ends with the header and the rows of every pair, each pair's rows being the ones
  it yields on its own.
\<close>

theorem per_file_errors:
  "(read_file e p = Inl msg \<or> (\<exists>xml. read_file e p = Inr xml \<and> parse_xml e xml = Inl msg) \<longrightarrow>
      extract_premise_and_requirement e p =
        ([''Error extracting Premise and Requirement from '' @ p @ '': '' @ msg], [])
      \<and> extract_xd_note e p = ([''Error extracting xd Notes from '' @ p @ '': '' @ msg], [])
      \<and> parse_dita e p = ([''Error parsing '' @ p @ '': '' @ msg], (None, None, None, None))
      \<and> parse_testcase_dita e p = ([''Error parsing '' @ p @ '': '' @ msg], (None, None, None)))
   \<and> (listdir e folder = Inr names \<longrightarrow> open_write e out = None \<longrightarrow>
        process_folder e folder out =
          (concat (map (pair_printed e folder) (matched_files (dita_files names))) @
             [''CSV file created successfully: '' @ out],
           Some (csv_header #
             concat (map (pair_rows e folder) (matched_files (dita_files names))))))
   \<and> (load_soup e (os_path_join folder b) = Inl msg \<or>
       load_soup e (os_path_join folder t) = Inl msg \<longrightarrow> pair_rows e folder (b, t) = [])"
proof -
  have 1: "load_soup e p = Inl msg"
    if "read_file e p = Inl msg \<or> (\<exists>xml. read_file e p = Inr xml \<and> parse_xml e xml = Inl msg)"
    using that by (auto simp: load_soup_def)
  have 2: "process_folder e folder out =
          (concat (map (pair_printed e folder) (matched_files (dita_files names))) @
             [''CSV file created successfully: '' @ out],
           Some (csv_header #
             concat (map (pair_rows e folder) (matched_files (dita_files names)))))"
    if "listdir e folder = Inr names" "open_write e out = None"
    using that fold_pair_step[of e folder _ "[]" "[]"]
    by (simp add: process_folder_def Let_def)
  have 3: "pair_rows e folder (b, t) = []"
    if "load_soup e (os_path_join folder b) = Inl msg \<or>
        load_soup e (os_path_join folder t) = Inl msg"
    using that pair_rows_length[of e folder b t]
    by (auto simp: parse_dita_title parse_testcase_dita_title)
  show ?thesis
    using 1 2 3
    by (auto simp: extract_premise_and_requirement_def extract_xd_note_def parse_dita_def
        parse_testcase_dita_def)
qed

theorem per_file_errors_witness:
  "read_file (sample_env sample_base sample_testcase) ''TRC/bar.dita'' = Inl ''Permission denied''
   \<and> parse_dita (sample_env sample_base sample_testcase) ''TRC/bar.dita'' =
       ([''Error parsing TRC/bar.dita: Permission denied''], (None, None, None, None))
   \<and> extract_premise_and_requirement (sample_env sample_base sample_testcase) ''TRC/bar.dita'' =
       ([''Error extracting Premise and Requirement from TRC/bar.dita: Permission denied''], [])
   \<and> listdir (sample_env sample_base sample_testcase) ''TRC'' =
       Inr [''bar.dita'', ''bar_testcase.dita'', ''foo.dita'', ''foo_testcase.dita'',
            ''baz_testcase.dita'', ''notes.txt'']
   \<and> snd (process_folder (sample_env sample_base sample_testcase) ''TRC'' ''out.csv'') =
       Some (csv_header # concat (map (pair_rows (sample_env sample_base sample_testcase) ''TRC'')
         (matched_files (dita_files [''bar.dita'', ''bar_testcase.dita'', ''foo.dita'',
            ''foo_testcase.dita'', ''baz_testcase.dita'', ''notes.txt'']))))
   \<and> pair_rows (sample_env sample_base sample_testcase) ''TRC'' (''bar.dita'', ''bar_testcase.dita'') = []
   \<and> length (pair_rows (sample_env sample_base sample_testcase) ''TRC''
        (''foo.dita'', ''foo_testcase.dita'')) = 1"
proof -
  let ?e = "sample_env sample_base sample_testcase"
  let ?names = "[''bar.dita'', ''bar_testcase.dita'', ''foo.dita'', ''foo_testcase.dita'',
            ''baz_testcase.dita'', ''notes.txt'']"
  have 1: "read_file ?e ''TRC/bar.dita'' = Inl ''Permission denied''" by code_simp
  have 2: "listdir ?e ''TRC'' = Inr ?names" by code_simp
  have 3: "open_write ?e ''out.csv'' = None" by code_simp
  have 4: "pair_rows ?e ''TRC'' (''bar.dita'', ''bar_testcase.dita'') = []" by code_simp
  have 5: "length (pair_rows ?e ''TRC'' (''foo.dita'', ''foo_testcase.dita'')) = 1" by code_simp
  show ?thesis
    using 1 2 3 4 5
      per_file_errors[of ?e "''TRC/bar.dita''" "''Permission denied''" "''TRC''" ?names "''out.csv''"]
    by simp
qed

section \<open>Documents that differ in a requirements description\<close>













subsection \<open>What the extractors read\<close>
















subsection \<open>Two runs\<close>








subsection \<open>The sample documents\<close>




text \<open>
  The condition on the description is needed: a description that holds a table-cell entry
  is read by the premise and requirement scan, and changing its text changes the block.
\<close>

lemma description_with_entry:
  "premise_and_requirement
     (described_base [Element ''table'' [Element ''entry'' [Element ''p'' [Text ''Premise: Q0'']]]]) =
     ''Premise:\<newline>A\<newline>Requirement:\<newline>''
   \<and> premise_and_requirement
     (described_base [Element ''table'' [Element ''entry'' [Element ''p'' [Text ''Requirement: Q1'']]]]) =
     ''Premise:\<newline>A\<newline>Requirement:\<newline>Q1''"
  by code_simp





section \<open>The premise and requirement block\<close>

text \<open>
  Where no paragraph repeats a label it starts with, the extraction returns the block as
  the specification words it.
\<close>

lemma replace_from_absent:
  "old \<noteq> [] \<Longrightarrow> \<not> contains s old \<Longrightarrow> replace_from old new s = s"
  by (induction s) simp_all

lemma replace_from_prefix:
  assumes "old \<noteq> []" and "startswith t old"
  shows "replace_from old new t = new @ replace_from old new (drop (length old) t)"
proof (cases t)
  case Nil
  then show ?thesis using assms by (simp add: startswith_def)
next
  case (Cons c cs)
  then show ?thesis using assms by simp
qed

lemma replace_label:
  assumes "label \<noteq> []" and "startswith t label" and "label_once label t"
  shows "strip (replace label [] t) = remainder label t"
  using assms replace_from_prefix[of label t "[]"]
    replace_from_absent[of label "drop (length label) t" "[]"]
  by (simp add: replace_def remainder_def label_once_def)

lemma labels_exclusive: "startswith t ''Premise:'' \<Longrightarrow> \<not> startswith t ''Requirement:''"
  by (cases t) (simp_all add: startswith_def)

lemma premise_step_text:
  assumes "label_once ''Premise:'' (get_text p)" and "label_once ''Requirement:'' (get_text p)"
  shows "premise_step p st = text_step (get_text p) st"
proof (cases st)
  case (Pair premise requirement)
  show ?thesis
    using assms replace_label[of "''Premise:''" "get_text p"]
      replace_label[of "''Requirement:''" "get_text p"]
    by (simp add: Pair premise_step_def text_step_def Let_def)
qed

lemma premise_fold_text:
  assumes "\<forall>p \<in> set ps. label_once ''Premise:'' (get_text p) \<and>
                          label_once ''Requirement:'' (get_text p)"
  shows "fold premise_step ps st = fold text_step (map get_text ps) st"
  using assms by (induction ps arbitrary: st) (simp_all add: premise_step_text)

lemma premise_entries_fold:
  "fold (\<lambda>entry st. fold premise_step (find_all [''p''] entry) st) es st =
   fold premise_step (concat (map (find_all [''p'']) es)) st"
  by (induction es arbitrary: st) simp_all

lemma text_fold_spec:
  "fold text_step texts ([], []) = (spec_premise texts, spec_requirement texts)"
proof (induction texts rule: rev_induct)
  case Nil
  then show ?case by (simp add: spec_premise_def spec_requirement_def)
next
  case (snoc t texts)
  have "fold text_step (texts @ [t]) ([], []) =
        text_step t (spec_premise texts, spec_requirement texts)"
    using snoc by simp
  also have "\<dots> = (spec_premise (texts @ [t]), spec_requirement (texts @ [t]))"
    using labels_exclusive[of t]
    by (auto simp: text_step_def spec_premise_def spec_requirement_def)
  finally show ?case .
qed

lemma premise_and_requirement_spec:
  assumes "\<forall>t \<in> set (paragraph_texts soup). label_once ''Premise:'' t \<and>
                                             label_once ''Requirement:'' t"
  shows "premise_and_requirement soup = spec_premise_and_requirement (paragraph_texts soup)"
proof -
  let ?ps = "concat (map (find_all [''p'']) (find_all [''entry''] soup))"
  have texts: "paragraph_texts soup = map get_text ?ps"
    by (simp add: paragraph_texts_def map_concat comp_def)
  have "\<forall>p \<in> set ?ps. label_once ''Premise:'' (get_text p) \<and>
                         label_once ''Requirement:'' (get_text p)"
    using assms unfolding texts by simp
  then have "premise_loop soup = fold text_step (paragraph_texts soup) ([], [])"
    unfolding premise_loop_def premise_entries_fold texts by (rule premise_fold_text)
  then show ?thesis
    by (simp add: premise_and_requirement_def spec_premise_and_requirement_def text_fold_spec)
qed

text \<open>
  C2. For the paragraphs \<open>Premise: A\<close> and \<open>Requirement: B Requirement: C\<close> the
  extraction removes both occurrences of the label and returns \<open>B  C\<close> as the
  requirement, where the block as the specification words it keeps the remainder
  \<open>B Requirement: C\<close>. On the specification's own example, \<open>Premise: A\<close>,
  \<open>Requirement: B\<close>, \<open>Requirement: C\<close>, the extraction returns the block the
  specification gives.
\<close>

theorem repeated_label:
  "paragraph_texts repeated_label_base = [''Premise: A'', ''Requirement: B Requirement: C'']
   \<and> premise_and_requirement repeated_label_base =
       ''Premise:\<newline>A\<newline>Requirement:\<newline>B  C''
   \<and> spec_premise_and_requirement (paragraph_texts repeated_label_base) =
       ''Premise:\<newline>A\<newline>Requirement:\<newline>B Requirement: C''
   \<and> paragraph_texts sample_base = [''Premise: A'', ''Requirement: B'', ''Requirement: C'']
   \<and> premise_and_requirement sample_base =
       ''Premise:\<newline>A\<newline>Requirement:\<newline>B\<newline>C''"
  by code_simp

end
